theory Spec2Isabelle
  imports Main "HOL-Library.Word"
begin

section \<open>The chat backend of \<^verbatim>\<open>main.go\<close>, in-memory variant\<close>

text \<open>
  The repository holds two versions of \<^verbatim>\<open>main.go\<close>. The first (lines 1 to 241) keeps
  lobbies, messages and senders in package-level variables; the second (lines 242 to 633)
  keeps them in a MySQL database. This theory embeds the first version in full: every
  handler is a function from the bound request and the package-level variables to the HTTP
  response and the new variables. Of the second version it embeds \<^verbatim>\<open>postMessage\<close>,
  \<^verbatim>\<open>enterLobby\<close> and \<^verbatim>\<open>updateTyping\<close> with the functions they call, over a database
  that is a parameter.

  Conventions of the embedding:
  \<^item> a Go struct is a record with the fields of the source; where two structs share a field
    name the field is written with its record (\<open>message.LobbyId\<close>, \<open>sender.LobbyId\<close>);
  \<^item> Go's \<^verbatim>\<open>int\<close> and \<^verbatim>\<open>int64\<close> are \<open>64 word\<close> (a 64-bit platform), read as signed numbers
    with \<open>sint\<close>, so \<^verbatim>\<open>nextMessageId++\<close> wraps as it does in Go;
  \<^item> a slice is a list; a slice-typed struct field is a \<open>list option\<close>, \<open>None\<close> being
    the nil slice that encodes as JSON \<^verbatim>\<open>null\<close>;
  \<^item> \<^verbatim>\<open>map[string]bool\<close> is a map \<open>string \<rightharpoonup> bool\<close>;
  \<^item> the result of \<^verbatim>\<open>c.BindJSON\<close> is an option: \<open>None\<close> when the body does not parse;
  \<^item> \<^verbatim>\<open>time.Now().Unix()\<close> and the draws of \<^verbatim>\<open>rand.Intn\<close> are inputs of the handler;
  \<^item> a handler runs as one atomic step (the interleaving of goroutines is not modelled);
  \<^item> a handler that never returns has the value \<open>None\<close>.
\<close>

subsection \<open>Data\<close>

record message =
  Id :: "64 word"
  LobbyId :: string
  SenderName :: string
  MessageString :: string
  Timestamp :: "64 word"

record sender =
  Username :: string
  LobbyId :: string
  IsTyping :: bool

record lobbyData =
  Messages :: "message list option"
  Senders :: "sender list option"
  Id :: string

text \<open>The package-level variables \<^verbatim>\<open>messages\<close>, \<^verbatim>\<open>senders\<close>, \<^verbatim>\<open>lobbies\<close>, \<^verbatim>\<open>nextMessageId\<close>.\<close>

record state =
  messages :: "message list"
  senders :: "sender list"
  lobbies :: "string \<rightharpoonup> bool"
  nextMessageId :: "64 word"

definition init :: state where
  "init = \<lparr>messages = [], senders = [], lobbies = Map.empty, nextMessageId = 1\<rparr>"

text \<open>What a handler hands to \<^verbatim>\<open>c.JSON\<close> or \<^verbatim>\<open>c.IndentedJSON\<close>: a status and a value.\<close>

datatype payload =
  H string          \<comment> \<open>\<^verbatim>\<open>gin.H{"message": ...}\<close>\<close>
  | LobbyJSON lobbyData
  | StringJSON string
  | BoolJSON bool
  | EmptyJSON       \<comment> \<open>\<^verbatim>\<open>struct{}{}\<close>\<close>

datatype response = JSON nat payload

abbreviation StatusOK :: nat where "StatusOK \<equiv> 200"
abbreviation StatusCreated :: nat where "StatusCreated \<equiv> 201"
abbreviation StatusBadRequest :: nat where "StatusBadRequest \<equiv> 400"
abbreviation StatusNotFound :: nat where "StatusNotFound \<equiv> 404"
abbreviation StatusInternalServerError :: nat where "StatusInternalServerError \<equiv> 500"

abbreviation LOBBY_ID_LENGTH :: nat where "LOBBY_ID_LENGTH \<equiv> 6"

subsection \<open>Reading: \<^verbatim>\<open>doesLobbyExist\<close>, \<^verbatim>\<open>constructLobbyData\<close>, \<^verbatim>\<open>fetchLobbyData\<close>, \<^verbatim>\<open>lobbyExists\<close>\<close>

definition doesLobbyExist :: "state \<Rightarrow> string \<Rightarrow> bool" where
  "doesLobbyExist s lobby_id = (lobbies s lobby_id \<noteq> None)"

text \<open>The two \<^verbatim>\<open>range\<close> loops append the matching element to a slice that starts empty and not nil.\<close>

definition includeMessage :: "string \<Rightarrow> message list \<Rightarrow> message \<Rightarrow> message list" where
  "includeMessage lobby_id includedMsgs m =
     (if message.LobbyId m = lobby_id then includedMsgs @ [m] else includedMsgs)"

definition includeSender :: "string \<Rightarrow> sender list \<Rightarrow> sender \<Rightarrow> sender list" where
  "includeSender lobby_id includedSenders x =
     (if sender.LobbyId x = lobby_id then includedSenders @ [x] else includedSenders)"

definition constructLobbyData :: "state \<Rightarrow> string \<Rightarrow> lobbyData \<times> string option" where
  "constructLobbyData s lobby_id =
     (if \<not> doesLobbyExist s lobby_id
      then (\<lparr>Messages = None, Senders = None, lobbyData.Id = []\<rparr>, Some ''lobby not found'')
      else
        let includedMsgs = foldl (includeMessage lobby_id) [] (messages s);
            includedSenders = foldl (includeSender lobby_id) [] (senders s)
        in (\<lparr>Messages = Some includedMsgs, Senders = Some includedSenders,
             lobbyData.Id = lobby_id\<rparr>, None))"

definition fetchLobbyData :: "string \<Rightarrow> state \<Rightarrow> response" where
  "fetchLobbyData lobby_id s =
     (case constructLobbyData s lobby_id of
        (result, Some err) \<Rightarrow> JSON StatusNotFound (H err)
      | (result, None) \<Rightarrow> JSON StatusOK (LobbyJSON result))"

definition lobbyExists :: "string \<Rightarrow> state \<Rightarrow> response" where
  "lobbyExists lobby_id s =
     (if \<not> doesLobbyExist s lobby_id then JSON StatusOK (BoolJSON False)
      else JSON StatusOK (BoolJSON True))"

subsection \<open>\<^verbatim>\<open>postMessage\<close>\<close>

definition postMessage :: "message option \<Rightarrow> 64 word \<Rightarrow> state \<Rightarrow> response \<times> state" where
  "postMessage bound now s =
     (case bound of
        None \<Rightarrow> (JSON StatusBadRequest (H ''Message was invalid!''), s)
      | Some msg0 \<Rightarrow>
          if \<not> doesLobbyExist s (message.LobbyId msg0)
          then (JSON StatusBadRequest (H ''Message did not belong to a lobby!''), s)
          else
            let msg = msg0\<lparr>message.Id := nextMessageId s, Timestamp := now\<rparr>;
                s' = s\<lparr>nextMessageId := nextMessageId s + 1, messages := messages s @ [msg]\<rparr>
            in (case constructLobbyData s' (message.LobbyId msg) of
                  (lobbyData, Some err) \<Rightarrow> (JSON StatusBadRequest (H err), s')
                | (lobbyData, None) \<Rightarrow> (JSON StatusCreated (LobbyJSON lobbyData), s')))"

subsection \<open>\<^verbatim>\<open>randSeq\<close> and \<^verbatim>\<open>createLobby\<close>\<close>

text \<open>
  The random source is the sequence \<open>rng\<close> of raw draws; the \<open>k\<close>-th call of
  \<^verbatim>\<open>rand.Intn(n)\<close> returns \<open>rng k mod n\<close>, a number below \<open>n\<close>. \<^verbatim>\<open>randSeq(n)\<close> started at
  draw \<open>k\<close> consumes the draws \<open>k\<close> to \<open>k + n - 1\<close>.
\<close>

definition letters :: string where
  "letters = ''abcdefghijklmnopqrstuvwxyz''"

definition Intn :: "(nat \<Rightarrow> nat) \<Rightarrow> nat \<Rightarrow> nat \<Rightarrow> nat" where
  "Intn rng k n = rng k mod n"

definition randSeq :: "(nat \<Rightarrow> nat) \<Rightarrow> nat \<Rightarrow> nat \<Rightarrow> string" where
  "randSeq rng k n = map (\<lambda>i. letters ! Intn rng (k + i) (length letters)) [0..<n]"

text \<open>
  The retry loop \<^verbatim>\<open>for doesLobbyExist(id) && attempts > 0\<close>; \<open>k\<close> is the number of draws
  consumed so far. The counter \<^verbatim>\<open>attempts\<close> stays between 0 and 10.
\<close>

function createLobby_loop :: "state \<Rightarrow> (nat \<Rightarrow> nat) \<Rightarrow> nat \<Rightarrow> string \<Rightarrow> int \<Rightarrow> string \<times> int" where
  "createLobby_loop s rng k lobby_id attempts =
     (if doesLobbyExist s lobby_id \<and> attempts > 0
      then createLobby_loop s rng (k + LOBBY_ID_LENGTH) (randSeq rng k LOBBY_ID_LENGTH) (attempts - 1)
      else (lobby_id, attempts))"
  by pat_completeness auto
termination
  by (relation "measure (\<lambda>(s, rng, k, lobby_id, attempts). nat attempts)") auto

declare createLobby_loop.simps [simp del]

definition createLobby :: "(nat \<Rightarrow> nat) \<Rightarrow> state \<Rightarrow> response \<times> state" where
  "createLobby rng s =
     (case createLobby_loop s rng LOBBY_ID_LENGTH (randSeq rng 0 LOBBY_ID_LENGTH) 10 of
        (lobby_id, attempts) \<Rightarrow>
          if attempts = 0
          then (JSON StatusInternalServerError (H ''Failed to generate unique id string!''), s)
          else (JSON StatusCreated (StringJSON lobby_id), s\<lparr>lobbies := (lobbies s)(lobby_id \<mapsto> True)\<rparr>))"

subsection \<open>\<^verbatim>\<open>enterLobby\<close>\<close>

text \<open>The scan \<^verbatim>\<open>for _, s := range senders\<close> clears \<^verbatim>\<open>add\<close> at every sender of that lobby and name.\<close>

definition enterLobby_scan :: "sender \<Rightarrow> bool \<Rightarrow> sender \<Rightarrow> bool" where
  "enterLobby_scan enterReq add x =
     (if sender.LobbyId x = sender.LobbyId enterReq \<and> Username x = Username enterReq
      then False else add)"

definition enterLobby :: "sender option \<Rightarrow> state \<Rightarrow> response \<times> state" where
  "enterLobby bound s =
     (case bound of
        None \<Rightarrow> (JSON StatusBadRequest (H ''Could not parse request!''), s)
      | Some enterReq \<Rightarrow>
          if \<not> doesLobbyExist s (sender.LobbyId enterReq)
          then (JSON StatusBadRequest (H ''Lobby does not exist!''), s)
          else
            let add = foldl (enterLobby_scan enterReq) True (senders s);
                s' = (if add then s\<lparr>senders := senders s @ [enterReq\<lparr>IsTyping := False\<rparr>]\<rparr>
                      else s)
            in (case constructLobbyData s' (sender.LobbyId enterReq) of
                  (result, Some err) \<Rightarrow> (JSON StatusBadRequest (H err), s')
                | (result, None) \<Rightarrow> (JSON StatusOK (LobbyJSON result), s')))"

subsection \<open>\<^verbatim>\<open>updateTyping\<close>\<close>

text \<open>
  The loop \<^verbatim>\<open>for i := 0; i < len(senders); { ... }\<close> has no post statement: when the sender
  at \<open>i\<close> is not the requested one, the next iteration starts with the same \<open>i\<close>. The
  function returns the slice \<open>ss\<close> of senders and \<^verbatim>\<open>found\<close> as they are when the loop is left.
\<close>

partial_function (option) updateTyping_loop ::
  "nat \<Rightarrow> sender list \<Rightarrow> sender \<Rightarrow> (sender list \<times> bool) option" where
  "updateTyping_loop i ss request =
     (if i < length ss
      then if Username (ss ! i) = Username request
              \<and> sender.LobbyId (ss ! i) = sender.LobbyId request
           then Some (ss[i := (ss ! i)\<lparr>IsTyping := IsTyping request\<rparr>], True)
           else updateTyping_loop i ss request
      else Some (ss, False))"

definition updateTyping :: "sender option \<Rightarrow> state \<Rightarrow> (response \<times> state) option" where
  "updateTyping bound s =
     (case bound of
        None \<Rightarrow> Some (JSON StatusBadRequest (H ''Failed to parse request body!''), s)
      | Some request \<Rightarrow>
          (case updateTyping_loop 0 (senders s) request of
             None \<Rightarrow> None
           | Some (ss, found) \<Rightarrow>
               Some (if found then JSON StatusOK EmptyJSON
                     else JSON StatusNotFound (H ''Could not find sender to update!''),
                     s\<lparr>senders := ss\<rparr>)))"

subsection \<open>The router\<close>

datatype request =
  GetLobby string
  | PostMessage "message option" "64 word"
  | GetLobbyExists string
  | PostCreateLobby "nat \<Rightarrow> nat"
  | PostEnterLobby "sender option"
  | PostUpdateTyping "sender option"

fun serve :: "request \<Rightarrow> state \<Rightarrow> (response \<times> state) option" where
  "serve (GetLobby lobby_id) s = Some (fetchLobbyData lobby_id s, s)"
| "serve (PostMessage bound now) s = Some (postMessage bound now s)"
| "serve (GetLobbyExists lobby_id) s = Some (lobbyExists lobby_id s, s)"
| "serve (PostCreateLobby rng) s = Some (createLobby rng s)"
| "serve (PostEnterLobby bound) s = Some (enterLobby bound s)"
| "serve (PostUpdateTyping bound) s = updateTyping bound s"

text \<open>
  The store after a sequence of requests, each served to its end before the next. The only
  handler that may not return is \<^verbatim>\<open>updateTyping\<close>, and it assigns nothing before it spins, so
  the stores that \<open>run\<close> reaches from \<open>init\<close> are the stores the served requests can leave.
\<close>

fun run :: "request list \<Rightarrow> state \<Rightarrow> state option" where
  "run [] s = Some s"
| "run (r # rs) s = (case serve r s of None \<Rightarrow> None | Some (resp, s') \<Rightarrow> run rs s')"


section \<open>The MySQL variant: \<^verbatim>\<open>postMessage\<close>, \<^verbatim>\<open>enterLobby\<close> and \<^verbatim>\<open>updateTyping\<close>\<close>

text \<open>
  The database is outside the repository. It is a parameter: a state \<open>'db\<close> and one
  operation for each statement the three handlers send. A statement returns Go's \<^verbatim>\<open>error\<close>
  as a \<open>string option\<close> (\<open>None\<close> is \<^verbatim>\<open>nil\<close>); a query returns its rows or the error.
  A handler may write more than one response, so it returns the list of what it wrote.
\<close>

record 'db database =
  count_lobbies :: "'db \<Rightarrow> string \<Rightarrow> int option"
    \<comment> \<open>\<^verbatim>\<open>SELECT COUNT(*) FROM lobbies WHERE id = ?\<close>, \<open>None\<close> when \<^verbatim>\<open>Scan\<close> fails\<close>
  select_message :: "'db \<Rightarrow> string \<Rightarrow> string + message list"
    \<comment> \<open>\<^verbatim>\<open>SELECT * FROM message WHERE lobbyId = ?\<close>\<close>
  select_sender :: "'db \<Rightarrow> string \<Rightarrow> string + sender list"
    \<comment> \<open>\<^verbatim>\<open>SELECT * FROM sender WHERE lobbyId = ?\<close>\<close>
  insert_message :: "string \<Rightarrow> string \<Rightarrow> string \<Rightarrow> 64 word \<Rightarrow> 'db \<Rightarrow> string option \<times> 'db"
    \<comment> \<open>\<^verbatim>\<open>INSERT INTO message (lobbyId, senderName, messageString, timestamp) VALUES (?, ?, ?, ?)\<close>\<close>
  count_sender :: "'db \<Rightarrow> string \<Rightarrow> string \<Rightarrow> int option"
    \<comment> \<open>\<^verbatim>\<open>SELECT COUNT(*) FROM sender WHERE lobbyId = ? AND name = ?\<close>\<close>
  insert_sender :: "string \<Rightarrow> string \<Rightarrow> bool \<Rightarrow> 'db \<Rightarrow> string option \<times> 'db"
    \<comment> \<open>\<^verbatim>\<open>INSERT INTO sender (name, lobbyId, isTyping) VALUES (?, ?, ?)\<close>\<close>
  update_sender :: "bool \<Rightarrow> string \<Rightarrow> string \<Rightarrow> 'db \<Rightarrow> string option \<times> 'db"
    \<comment> \<open>\<^verbatim>\<open>UPDATE sender SET isTyping = ? WHERE lobbyId = ? AND name = ?\<close>\<close>

abbreviation MAX_MSG_LEN :: nat where "MAX_MSG_LEN \<equiv> 512"
abbreviation MAX_USERNAME_LEN :: nat where "MAX_USERNAME_LEN \<equiv> 32"

definition doesLobbyExist_sql :: "'db database \<Rightarrow> 'db \<Rightarrow> string \<Rightarrow> bool" where
  "doesLobbyExist_sql D db lobby_id =
     (case count_lobbies D db lobby_id of
        None \<Rightarrow> False
      | Some val \<Rightarrow> if val = 0 then False else True)"

definition getMessagesFor :: "'db database \<Rightarrow> 'db \<Rightarrow> string \<Rightarrow> message list option \<times> string option" where
  "getMessagesFor D db lobbyId =
     (case select_message D db lobbyId of
        Inl err \<Rightarrow> (None, Some err)
      | Inr rows \<Rightarrow> (Some (foldl (\<lambda>msgs msg. msgs @ [msg]) [] rows), None))"

definition getSendersFor :: "'db database \<Rightarrow> 'db \<Rightarrow> string \<Rightarrow> sender list option \<times> string option" where
  "getSendersFor D db lobbyId =
     (case select_sender D db lobbyId of
        Inl err \<Rightarrow> (None, Some err)
      | Inr rows \<Rightarrow> (Some (foldl (\<lambda>sndrs sndr. sndrs @ [sndr]) [] rows), None))"

definition constructLobbyData_sql :: "'db database \<Rightarrow> 'db \<Rightarrow> string \<Rightarrow> lobbyData \<times> string option" where
  "constructLobbyData_sql D db lobby_id =
     (if \<not> doesLobbyExist_sql D db lobby_id
      then (\<lparr>Messages = None, Senders = None, lobbyData.Id = []\<rparr>, Some ''lobby not found'')
      else
        case (getMessagesFor D db lobby_id, getSendersFor D db lobby_id) of
          ((includedMsgs, Some msgerr), (includedSenders, sendererr)) \<Rightarrow>
            (\<lparr>Messages = None, Senders = None, lobbyData.Id = []\<rparr>, Some msgerr)
        | ((includedMsgs, None), (includedSenders, Some sendererr)) \<Rightarrow>
            (\<lparr>Messages = None, Senders = None, lobbyData.Id = []\<rparr>, Some sendererr)
        | ((includedMsgs, None), (includedSenders, None)) \<Rightarrow>
            (\<lparr>Messages = includedMsgs, Senders = includedSenders, lobbyData.Id = lobby_id\<rparr>, None))"

definition appendMessage :: "'db database \<Rightarrow> message \<Rightarrow> 64 word \<Rightarrow> 'db \<Rightarrow> string option \<times> 'db" where
  "appendMessage D msg0 now db =
     (let msg = msg0\<lparr>Timestamp := now\<rparr>
      in case insert_message D (message.LobbyId msg) (SenderName msg) (MessageString msg)
                (Timestamp msg) db of
           (Some err, db') \<Rightarrow> (Some (''addAlbum: '' @ err), db')
         | (None, db') \<Rightarrow> (None, db'))"

text \<open>After a failed insert the handler writes the error and goes on: there is no \<^verbatim>\<open>return\<close>.\<close>

definition postMessage_sql ::
  "'db database \<Rightarrow> message option \<Rightarrow> 64 word \<Rightarrow> 'db \<Rightarrow> response list \<times> 'db" where
  "postMessage_sql D bound now db =
     (case bound of
        None \<Rightarrow> ([JSON StatusBadRequest (H ''Message was invalid!'')], db)
      | Some msg \<Rightarrow>
          if length (MessageString msg) > MAX_MSG_LEN
          then ([JSON StatusBadRequest (H ''Message is too long!'')], db)
          else if \<not> doesLobbyExist_sql D db (message.LobbyId msg)
          then ([JSON StatusBadRequest (H ''Message did not belong to a lobby!'')], db)
          else
            case appendMessage D msg now db of
              (insertErr, db') \<Rightarrow>
                let written = (case insertErr of
                                 Some err \<Rightarrow> [JSON StatusBadRequest (H err)]
                               | None \<Rightarrow> [])
                in (case constructLobbyData_sql D db' (message.LobbyId msg) of
                      (lobbyData, Some err) \<Rightarrow> (written @ [JSON StatusBadRequest (H err)], db')
                    | (lobbyData, None) \<Rightarrow>
                        (written @ [JSON StatusCreated (LobbyJSON lobbyData)], db')))"

definition senderExists :: "'db database \<Rightarrow> 'db \<Rightarrow> sender \<Rightarrow> bool" where
  "senderExists D db enterReq =
     (case count_sender D db (sender.LobbyId enterReq) (Username enterReq) of
        None \<Rightarrow> False
      | Some val \<Rightarrow> if val = 0 then False else True)"

definition addSender :: "'db database \<Rightarrow> sender \<Rightarrow> 'db \<Rightarrow> string option \<times> 'db" where
  "addSender D enterReq0 db =
     (if senderExists D db enterReq0 then (None, db)
      else
        let enterReq = enterReq0\<lparr>IsTyping := False\<rparr>
        in case insert_sender D (Username enterReq) (sender.LobbyId enterReq) (IsTyping enterReq) db of
             (Some err, db') \<Rightarrow> (Some (''insert lobby: '' @ err), db')
           | (None, db') \<Rightarrow> (None, db'))"

definition enterLobby_sql ::
  "'db database \<Rightarrow> sender option \<Rightarrow> 'db \<Rightarrow> response list \<times> 'db" where
  "enterLobby_sql D bound db =
     (case bound of
        None \<Rightarrow> ([JSON StatusBadRequest (H ''Could not parse request!'')], db)
      | Some enterReq \<Rightarrow>
          if \<not> doesLobbyExist_sql D db (sender.LobbyId enterReq)
          then ([JSON StatusBadRequest (H ''Lobby does not exist!'')], db)
          else if length (Username enterReq) > MAX_USERNAME_LEN
          then ([JSON StatusBadRequest (H ''Username is too long!'')], db)
          else
            case addSender D enterReq db of
              (Some addErr, db') \<Rightarrow> ([JSON StatusBadRequest (H addErr)], db')
            | (None, db') \<Rightarrow>
                (case constructLobbyData_sql D db' (sender.LobbyId enterReq) of
                   (result, Some err) \<Rightarrow> ([JSON StatusBadRequest (H err)], db')
                 | (result, None) \<Rightarrow> ([JSON StatusOK (LobbyJSON result)], db')))"

definition setTyping :: "'db database \<Rightarrow> sender \<Rightarrow> 'db \<Rightarrow> string option \<times> 'db" where
  "setTyping D request db =
     update_sender D (IsTyping request) (sender.LobbyId request) (Username request) db"

definition updateTyping_sql ::
  "'db database \<Rightarrow> sender option \<Rightarrow> 'db \<Rightarrow> response list \<times> 'db" where
  "updateTyping_sql D bound db =
     (case bound of
        None \<Rightarrow> ([JSON StatusBadRequest (H ''Failed to parse request body!'')], db)
      | Some request \<Rightarrow>
          (case setTyping D request db of
             (None, db') \<Rightarrow> ([JSON StatusOK EmptyJSON], db')
           | (Some err, db') \<Rightarrow> ([JSON StatusNotFound (H err)], db')))"

section \<open>Invariants of the in-memory store\<close>


text \<open>No two senders share name and lobby.\<close>

definition sender_key :: "sender \<Rightarrow> string \<times> string" where
  "sender_key x = (Username x, sender.LobbyId x)"

definition senders_inv :: "state \<Rightarrow> bool" where
  "senders_inv s \<longleftrightarrow> distinct (map sender_key (senders s))"

section \<open>A session\<close>

text \<open>
  The scenario of the specification: a lobby \<^verbatim>\<open>abcxyz\<close> is created, \<^verbatim>\<open>bob\<close> enters and posts
  \<^verbatim>\<open>hi\<close>, sets his typing flag and posts again. The stores are those the session passes through.
\<close>

definition rng_abcxyz :: "nat \<Rightarrow> nat" where
  "rng_abcxyz k = [0, 1, 2, 23, 24, 25] ! (k mod 6)"

definition bob :: sender where
  "bob = \<lparr>Username = ''bob'', LobbyId = ''abcxyz'', IsTyping = False\<rparr>"

definition ghost :: sender where
  "ghost = \<lparr>Username = ''ghost'', LobbyId = ''abcxyz'', IsTyping = True\<rparr>"

definition hi :: message where
  "hi = \<lparr>message.Id = 0, LobbyId = ''abcxyz'', SenderName = ''bob'', MessageString = ''hi'',
          Timestamp = 0\<rparr>"


definition store_created :: state where
  "store_created = \<lparr>messages = [], senders = [], lobbies = [''abcxyz'' \<mapsto> True], nextMessageId = 1\<rparr>"

definition store_entered :: state where
  "store_entered = \<lparr>messages = [], senders = [bob], lobbies = [''abcxyz'' \<mapsto> True],
                     nextMessageId = 1\<rparr>"


text \<open>A store with a second, empty lobby.\<close>

definition store_two_lobbies :: state where
  "store_two_lobbies =
     \<lparr>messages = [hi\<lparr>message.Id := 1, Timestamp := 1700000000\<rparr>], senders = [bob],
      lobbies = [''abcxyz'' \<mapsto> True, ''qqqqqq'' \<mapsto> True], nextMessageId = 2\<rparr>"

text \<open>
  A store whose only lobby is \<^verbatim>\<open>aaaaaa\<close>, and a random source whose first sixty draws are 0
  and all later ones 1: \<^verbatim>\<open>randSeq\<close> returns \<^verbatim>\<open>aaaaaa\<close> ten times and \<^verbatim>\<open>bbbbbb\<close> from then on.
\<close>

definition store_a :: state where
  "store_a = \<lparr>messages = [], senders = [], lobbies = [''aaaaaa'' \<mapsto> True], nextMessageId = 1\<rparr>"

definition rng_a_then_b :: "nat \<Rightarrow> nat" where
  "rng_a_then_b k = (if k < 60 then 0 else 1)"

section \<open>Lemmas\<close>

subsection \<open>The view\<close>

lemma foldl_includeMessage:
  "foldl (includeMessage l) acc ms = acc @ filter (\<lambda>m. message.LobbyId m = l) ms"
  by (induction ms arbitrary: acc) (simp_all add: includeMessage_def)

lemma foldl_includeSender:
  "foldl (includeSender l) acc xs = acc @ filter (\<lambda>x. sender.LobbyId x = l) xs"
  by (induction xs arbitrary: acc) (simp_all add: includeSender_def)

lemma constructLobbyData_found:
  "doesLobbyExist s l \<Longrightarrow>
   constructLobbyData s l =
     (\<lparr>Messages = Some (filter (\<lambda>m. message.LobbyId m = l) (messages s)),
       Senders = Some (filter (\<lambda>x. sender.LobbyId x = l) (senders s)),
       lobbyData.Id = l\<rparr>, None)"
  by (simp add: constructLobbyData_def foldl_includeMessage foldl_includeSender)

subsection \<open>The scan of \<^verbatim>\<open>updateTyping\<close>\<close>

text \<open>If the loop returns while \<open>i\<close> is in range, the sender at \<open>i\<close> is the requested one.\<close>

lemma updateTyping_loop_Some:
  "updateTyping_loop i ss r = Some y \<Longrightarrow> i < length ss \<Longrightarrow>
   Username (ss ! i) = Username r \<and> sender.LobbyId (ss ! i) = sender.LobbyId r"
  by (induct rule: updateTyping_loop.raw_induct [rotated 1, consumes 1]) (auto split: if_splits)

lemma updateTyping_loop_None:
  "i < length ss \<Longrightarrow>
   \<not> (Username (ss ! i) = Username r \<and> sender.LobbyId (ss ! i) = sender.LobbyId r) \<Longrightarrow>
   updateTyping_loop i ss r = None"
  using updateTyping_loop_Some [of i ss r] by (cases "updateTyping_loop i ss r") auto

lemma updateTyping_loop_hit:
  "i < length ss \<Longrightarrow> Username (ss ! i) = Username r \<Longrightarrow>
   sender.LobbyId (ss ! i) = sender.LobbyId r \<Longrightarrow>
   updateTyping_loop i ss r = Some (ss[i := (ss ! i)\<lparr>IsTyping := IsTyping r\<rparr>], True)"
  by (subst updateTyping_loop.simps) simp

lemma updateTyping_loop_end:
  "\<not> i < length ss \<Longrightarrow> updateTyping_loop i ss r = Some (ss, False)"
  by (subst updateTyping_loop.simps) simp

text \<open>The handler answers exactly when there is no sender or the first one is the requested one.\<close>

lemma updateTyping_returns_iff:
  "updateTyping (Some r) s \<noteq> None \<longleftrightarrow>
     senders s = [] \<or> (Username (senders s ! 0) = Username r
                       \<and> sender.LobbyId (senders s ! 0) = sender.LobbyId r)"
proof (cases "senders s = []")
  case True
  then show ?thesis by (simp add: updateTyping_def updateTyping_loop_end)
next
  case False
  then have len: "0 < length (senders s)" by simp
  show ?thesis
  proof (cases "Username (senders s ! 0) = Username r
                \<and> sender.LobbyId (senders s ! 0) = sender.LobbyId r")
    case True
    with len show ?thesis by (simp add: updateTyping_def updateTyping_loop_hit)
  next
    case no: False
    with len have "updateTyping_loop 0 (senders s) r = None"
      by (rule updateTyping_loop_None)
    with no False show ?thesis by (simp add: updateTyping_def)
  qed
qed

subsection \<open>The retry loop of \<^verbatim>\<open>createLobby\<close>\<close>

text \<open>
  Started with \<open>n\<close> attempts, the loop ends with none left exactly when the candidate it
  starts with and the next \<open>n - 1\<close> all exist. The candidate drawn in the last round is
  returned without being looked up.
\<close>

lemma createLobby_loop_attempts:
  "snd (createLobby_loop s rng k c (int n)) = 0 \<longleftrightarrow>
     n = 0 \<or> (doesLobbyExist s c \<and> (\<forall>j<n - 1. doesLobbyExist s (randSeq rng (k + 6 * j) 6)))"
proof (induction n arbitrary: k c)
  case 0
  show ?case by (subst createLobby_loop.simps) simp
next
  case (Suc n)
  show ?case
  proof (cases "doesLobbyExist s c")
    case False
    then show ?thesis by (subst createLobby_loop.simps) simp
  next
    case True
    have "snd (createLobby_loop s rng k c (int (Suc n)))
            = snd (createLobby_loop s rng (k + 6) (randSeq rng k 6) (int n))"
      using True by (subst createLobby_loop.simps) simp
    also have "\<dots> = 0 \<longleftrightarrow> n = 0 \<or> (doesLobbyExist s (randSeq rng k 6)
                     \<and> (\<forall>j<n - 1. doesLobbyExist s (randSeq rng (k + 6 + 6 * j) 6)))"
      by (rule Suc.IH)
    also have "\<dots> \<longleftrightarrow> (\<forall>j<n. doesLobbyExist s (randSeq rng (k + 6 * j) 6))"
    proof (cases n)
      case 0
      then show ?thesis by simp
    next
      case (Suc m)
      have "(\<forall>j<Suc m. doesLobbyExist s (randSeq rng (k + 6 * j) 6))
            \<longleftrightarrow> doesLobbyExist s (randSeq rng k 6)
                \<and> (\<forall>j<m. doesLobbyExist s (randSeq rng (k + 6 * Suc j) 6))"
        by (subst All_less_Suc2) simp
      then show ?thesis using Suc by (simp add: add.assoc)
    qed
    finally show ?thesis using True by simp
  qed
qed

text \<open>\<^verbatim>\<open>createLobby\<close> reports failure exactly when the first ten candidates all exist.\<close>

lemma createLobby_fails_iff:
  "fst (createLobby rng s)
     = JSON StatusInternalServerError (H ''Failed to generate unique id string!'')
   \<longleftrightarrow> (\<forall>j<10. doesLobbyExist s (randSeq rng (6 * j) 6))"
proof -
  let ?E = "\<lambda>j. doesLobbyExist s (randSeq rng (6 * j) 6)"
  have "snd (createLobby_loop s rng 6 (randSeq rng 0 6) (int 10)) = 0
        \<longleftrightarrow> 10 = (0::nat) \<or> (doesLobbyExist s (randSeq rng 0 6)
              \<and> (\<forall>j<10 - 1. doesLobbyExist s (randSeq rng (6 + 6 * j) 6)))"
    by (rule createLobby_loop_attempts)
  also have "\<dots> \<longleftrightarrow> ?E 0 \<and> (\<forall>j<9. ?E (Suc j))"
    by simp
  also have "\<dots> \<longleftrightarrow> (\<forall>j<Suc 9. ?E j)"
    by (rule All_less_Suc2 [symmetric])
  finally have "snd (createLobby_loop s rng 6 (randSeq rng 0 6) 10) = 0 \<longleftrightarrow> (\<forall>j<10. ?E j)"
    by simp
  then show ?thesis
    by (auto simp: createLobby_def split: prod.splits)
qed

lemma createLobby_fresh_first:
  "\<not> doesLobbyExist s (randSeq rng 0 6) \<Longrightarrow>
   createLobby rng s = (JSON StatusCreated (StringJSON (randSeq rng 0 6)),
                        s\<lparr>lobbies := (lobbies s)(randSeq rng 0 6 \<mapsto> True)\<rparr>)"
  by (simp add: createLobby_def createLobby_loop.simps [of s rng 6])

lemma createLobby_loop_fresh:
  "0 \<le> a \<Longrightarrow> createLobby_loop s rng k c a = (c', a') \<Longrightarrow> a' \<noteq> 0 \<Longrightarrow>
   \<not> doesLobbyExist s c'"
proof (induction s rng k c a rule: createLobby_loop.induct)
  case (1 s rng k lobby_id attempts)
  show ?case
  proof (cases "doesLobbyExist s lobby_id \<and> attempts > 0")
    case True
    with "1.prems" have "createLobby_loop s rng (k + 6) (randSeq rng k 6) (attempts - 1) = (c', a')"
      by (subst (asm) createLobby_loop.simps) simp
    with True "1.IH" "1.prems" show ?thesis by simp
  next
    case False
    with "1.prems" have "c' = lobby_id" "a' = attempts"
      by (subst (asm) createLobby_loop.simps, simp)+
    with False "1.prems" show ?thesis by auto
  qed
qed

text \<open>A lobby that \<^verbatim>\<open>createLobby\<close> creates did not exist before.\<close>

lemma createLobby_created_fresh:
  assumes "createLobby rng s = (JSON StatusCreated (StringJSON lobby_id), s')"
  shows "\<not> doesLobbyExist s lobby_id \<and> s' = s\<lparr>lobbies := (lobbies s)(lobby_id \<mapsto> True)\<rparr>"
proof -
  obtain c a where l: "createLobby_loop s rng 6 (randSeq rng 0 6) 10 = (c, a)"
    by (cases "createLobby_loop s rng 6 (randSeq rng 0 6) 10")
  with assms have "a \<noteq> 0" "c = lobby_id" "s' = s\<lparr>lobbies := (lobbies s)(lobby_id \<mapsto> True)\<rparr>"
    by (auto simp: createLobby_def split: if_splits)
  moreover from createLobby_loop_fresh [OF _ l \<open>a \<noteq> 0\<close>] have "\<not> doesLobbyExist s c" by simp
  ultimately show ?thesis by simp
qed

lemma randSeq_const:
  "\<forall>i<n. rng (k + i) mod 26 = d \<Longrightarrow> randSeq rng k n = replicate n (letters ! d)"
  by (simp add: randSeq_def Intn_def letters_def list_eq_iff_nth_eq)

lemma replicate6: "replicate 6 c = [c, c, c, c, c, c]"
  by (simp add: numeral_eq_Suc)

lemma randSeq_a: "j < 10 \<Longrightarrow> randSeq rng_a_then_b (6 * j) 6 = ''aaaaaa''"
proof -
  assume "j < 10"
  then have "\<forall>i<6. rng_a_then_b (6 * j + i) mod 26 = 0"
    by (simp add: rng_a_then_b_def)
  then have "randSeq rng_a_then_b (6 * j) 6 = replicate 6 (letters ! 0)"
    by (rule randSeq_const)
  then show ?thesis by (simp add: replicate6 letters_def)
qed

lemma randSeq_b: "randSeq rng_a_then_b 60 6 = ''bbbbbb''"
proof -
  have "\<forall>i<6. rng_a_then_b (60 + i) mod 26 = 1"
    by (simp add: rng_a_then_b_def)
  then have "randSeq rng_a_then_b 60 6 = replicate 6 (letters ! 1)"
    by (rule randSeq_const)
  then show ?thesis by (simp add: replicate6 letters_def)
qed

lemma randSeq_abcxyz: "randSeq rng_abcxyz 0 6 = ''abcxyz''"
  by (simp add: randSeq_def Intn_def rng_abcxyz_def letters_def upt_rec)

subsection \<open>What each handler leaves alone\<close>

lemma createLobby_frame:
  "messages (snd (createLobby rng s)) = messages s"
  "nextMessageId (snd (createLobby rng s)) = nextMessageId s"
  "senders (snd (createLobby rng s)) = senders s"
  by (auto simp: createLobby_def split: prod.splits)



lemma postMessage_senders: "senders (snd (postMessage bound now s)) = senders s"
  by (auto simp: postMessage_def Let_def split: option.splits prod.splits)

subsection \<open>The message ids\<close>








subsection \<open>The senders\<close>

lemma foldl_enterLobby_scan:
  "foldl (enterLobby_scan r) add xs =
     (add \<and> \<not> (\<exists>x\<in>set xs. sender.LobbyId x = sender.LobbyId r \<and> Username x = Username r))"
  by (induction xs arbitrary: add) (auto simp: enterLobby_scan_def)

lemma senders_inv_init: "senders_inv init"
  by (simp add: senders_inv_def init_def)

lemma enterLobby_state:
  "snd (enterLobby (Some r) s) =
     (if doesLobbyExist s (sender.LobbyId r) \<and> foldl (enterLobby_scan r) True (senders s)
      then s\<lparr>senders := senders s @ [r\<lparr>IsTyping := False\<rparr>]\<rparr> else s)"
  by (simp add: enterLobby_def Let_def split: prod.splits option.splits)

lemma enterLobby_senders:
  "senders (snd (enterLobby (Some r) s)) =
     (if doesLobbyExist s (sender.LobbyId r) \<and> sender_key r \<notin> sender_key ` set (senders s)
      then senders s @ [r\<lparr>IsTyping := False\<rparr>] else senders s)"
proof -
  have "foldl (enterLobby_scan r) True (senders s) \<longleftrightarrow> sender_key r \<notin> sender_key ` set (senders s)"
    unfolding foldl_enterLobby_scan sender_key_def image_iff
    by (simp add: eq_commute conj_commute)
  then show ?thesis by (simp add: enterLobby_state)
qed

lemma enterLobby_None_senders: "senders (snd (enterLobby None s)) = senders s"
  by (simp add: enterLobby_def)

lemma enterLobby_senders_inv: "senders_inv s \<Longrightarrow> senders_inv (snd (enterLobby bound s))"
proof (cases bound)
  case None
  assume "senders_inv s"
  then show ?thesis using None by (simp add: senders_inv_def enterLobby_None_senders)
next
  case (Some r)
  assume "senders_inv s"
  then show ?thesis using Some
    by (simp add: senders_inv_def enterLobby_senders sender_key_def)
qed

lemma enterLobby_keys:
  "set (map sender_key (senders s)) \<subseteq> set (map sender_key (senders (snd (enterLobby bound s))))"
  by (cases bound) (auto simp: enterLobby_None_senders enterLobby_senders)

lemma updateTyping_loop_keys:
  "updateTyping_loop i ss r = Some (ss', found) \<Longrightarrow> map sender_key ss' = map sender_key ss"
proof (cases "i < length ss")
  case False
  assume "updateTyping_loop i ss r = Some (ss', found)"
  with False show ?thesis by (simp add: updateTyping_loop_end)
next
  case True
  assume a: "updateTyping_loop i ss r = Some (ss', found)"
  from updateTyping_loop_Some [OF a True]
  have "updateTyping_loop i ss r = Some (ss[i := (ss ! i)\<lparr>IsTyping := IsTyping r\<rparr>], True)"
    using True by (simp add: updateTyping_loop_hit)
  with a have "ss' = ss[i := (ss ! i)\<lparr>IsTyping := IsTyping r\<rparr>]" by simp
  then show ?thesis
    by (simp add: map_update sender_key_def list_update_same_conv True)
qed

lemma updateTyping_keys:
  "updateTyping bound s = Some (resp, s') \<Longrightarrow>
   map sender_key (senders s') = map sender_key (senders s)"
  by (auto simp: updateTyping_def split: option.splits dest: updateTyping_loop_keys)

lemma serve_keys:
  assumes "serve r s = Some (resp, s')"
  shows "set (map sender_key (senders s)) \<subseteq> set (map sender_key (senders s'))"
    and "senders_inv s \<Longrightarrow> senders_inv s'"
proof -
  show "set (map sender_key (senders s)) \<subseteq> set (map sender_key (senders s'))"
  proof (cases r)
    case (PostMessage bound now)
    then show ?thesis using assms postMessage_senders [of bound now s] by auto
  next
    case (PostCreateLobby rng)
    then show ?thesis using assms createLobby_frame(3) [of rng s] by auto
  next
    case (PostEnterLobby bound)
    then show ?thesis using assms enterLobby_keys [of s bound] by auto
  next
    case (PostUpdateTyping bound)
    then show ?thesis using assms updateTyping_keys [of bound s resp s'] by simp
  qed (use assms in auto)
  show "senders_inv s'" if "senders_inv s"
  proof (cases r)
    case (PostMessage bound now)
    then show ?thesis using assms that postMessage_senders [of bound now s]
      by (auto simp: senders_inv_def)
  next
    case (PostCreateLobby rng)
    then show ?thesis using assms that createLobby_frame(3) [of rng s]
      by (auto simp: senders_inv_def)
  next
    case (PostEnterLobby bound)
    then show ?thesis using assms that enterLobby_senders_inv [of s bound] by auto
  next
    case (PostUpdateTyping bound)
    then show ?thesis using assms that updateTyping_keys [of bound s resp s']
      by (simp add: senders_inv_def)
  qed (use assms that in auto)
qed

lemma run_keys:
  "run rs s = Some s' \<Longrightarrow>
   set (map sender_key (senders s)) \<subseteq> set (map sender_key (senders s'))"
proof (induction rs arbitrary: s)
  case Nil
  then show ?case by simp
next
  case (Cons r rs)
  from Cons.prems obtain resp t where st: "serve r s = Some (resp, t)" and rn: "run rs t = Some s'"
    by (auto split: option.splits)
  from serve_keys(1) [OF st] Cons.IH [OF rn] show ?case by blast
qed

lemma run_senders_inv: "run rs s = Some s' \<Longrightarrow> senders_inv s \<Longrightarrow> senders_inv s'"
proof (induction rs arbitrary: s)
  case Nil
  then show ?case by simp
next
  case (Cons r rs)
  from Cons.prems obtain resp t where st: "serve r s = Some (resp, t)" and rn: "run rs t = Some s'"
    by (auto split: option.splits)
  from serve_keys(2) [OF st Cons.prems(2)] Cons.IH [OF rn] show ?case by blast
qed

lemma distinct_keys_count:
  "distinct (map f xs) \<Longrightarrow> k \<in> f ` set xs \<Longrightarrow> length (filter (\<lambda>x. f x = k) xs) = 1"
proof (induction xs)
  case Nil
  then show ?case by simp
next
  case (Cons x xs)
  show ?case
  proof (cases "f x = k")
    case True
    with Cons.prems(1) have "\<forall>y\<in>set xs. f y \<noteq> k"
      by (metis distinct.simps(2) imageI list.simps(9) list.set_map)
    then have "filter (\<lambda>x. f x = k) xs = []" by (simp add: filter_empty_conv)
    with True show ?thesis by simp
  next
    case False
    with Cons show ?thesis by auto
  qed
qed

subsection \<open>The session, step by step\<close>

lemma session_create: "createLobby rng_abcxyz init = (JSON StatusCreated (StringJSON ''abcxyz''), store_created)"
proof -
  have "\<not> doesLobbyExist init (randSeq rng_abcxyz 0 6)"
    by (simp add: doesLobbyExist_def init_def)
  from createLobby_fresh_first [OF this] show ?thesis
    by (simp add: randSeq_abcxyz init_def store_created_def)
qed

lemma session_enter: "snd (enterLobby (Some bob) store_created) = store_entered"
  by (simp add: enterLobby_state doesLobbyExist_def store_created_def store_entered_def bob_def)

lemma session_typing:
  "updateTyping (Some (bob\<lparr>IsTyping := True\<rparr>)) (s\<lparr>senders := [bob]\<rparr>)
     = Some (JSON StatusOK EmptyJSON, s\<lparr>senders := [bob\<lparr>IsTyping := True\<rparr>]\<rparr>)"
  by (simp add: updateTyping_def updateTyping_loop_hit)



subsection \<open>The MySQL variant\<close>

text \<open>A body of more than 512 bytes is refused before any statement is sent.\<close>

lemma postMessage_sql_too_long:
  "length (MessageString msg) > 512 \<Longrightarrow>
   postMessage_sql D (Some msg) now db = ([JSON StatusBadRequest (H ''Message is too long!'')], db)"
  by (simp add: postMessage_sql_def)

text \<open>
  When the lobby is counted and both queries answer, the view holds the rows they
  returned, in slices that are not nil.
\<close>

lemma foldl_snoc: "foldl (\<lambda>acc x. acc @ [x]) acc0 ys = acc0 @ ys"
  by (induction ys arbitrary: acc0) simp_all

lemma constructLobbyData_sql_found:
  "count_lobbies D db l = Some n \<Longrightarrow> n \<noteq> 0 \<Longrightarrow>
   select_message D db l = Inr ms \<Longrightarrow> select_sender D db l = Inr xs \<Longrightarrow>
   constructLobbyData_sql D db l = (\<lparr>Messages = Some ms, Senders = Some xs, lobbyData.Id = l\<rparr>, None)"
  by (simp add: constructLobbyData_sql_def doesLobbyExist_sql_def getMessagesFor_def
      getSendersFor_def foldl_snoc)

text \<open>An unknown lobby is refused before any statement that writes, when the body is short enough.\<close>

lemma postMessage_sql_unknown_lobby:
  "\<not> doesLobbyExist_sql D db (message.LobbyId msg) \<Longrightarrow> length (MessageString msg) \<le> 512 \<Longrightarrow>
   postMessage_sql D (Some msg) now db
     = ([JSON StatusBadRequest (H ''Message did not belong to a lobby!'')], db)"
  by (simp add: postMessage_sql_def)

lemma enterLobby_sql_unknown_lobby:
  "\<not> doesLobbyExist_sql D db (sender.LobbyId r) \<Longrightarrow>
   enterLobby_sql D (Some r) db = ([JSON StatusBadRequest (H ''Lobby does not exist!'')], db)"
  by (simp add: enterLobby_sql_def)

text \<open>A sender that is not counted is inserted with the typing flag off.\<close>

lemma addSender_new:
  "count_sender D db (sender.LobbyId r) (Username r) = Some 0 \<Longrightarrow>
   insert_sender D (Username r) (sender.LobbyId r) False db = (None, db') \<Longrightarrow>
   addSender D r db = (None, db')"
  by (simp add: addSender_def senderExists_def)

text \<open>A sender that is counted is not inserted again: no statement that writes is sent.\<close>

lemma addSender_existing:
  "count_sender D db (sender.LobbyId r) (Username r) = Some n \<Longrightarrow> n \<noteq> 0 \<Longrightarrow>
   addSender D r db = (None, db)"
  by (simp add: addSender_def senderExists_def)

text \<open>A name of more than 32 bytes is refused, after the lobby has been looked up.\<close>

lemma enterLobby_sql_name_too_long:
  "doesLobbyExist_sql D db (sender.LobbyId r) \<Longrightarrow> length (Username r) > 32 \<Longrightarrow>
   enterLobby_sql D (Some r) db = ([JSON StatusBadRequest (H ''Username is too long!'')], db)"
  by (simp add: enterLobby_sql_def)

text \<open>The answer to a typing update depends on the error of the statement alone.\<close>

lemma updateTyping_sql_no_error:
  "update_sender D (IsTyping r) (sender.LobbyId r) (Username r) db = (None, db') \<Longrightarrow>
   updateTyping_sql D (Some r) db = ([JSON StatusOK EmptyJSON], db')"
  by (simp add: updateTyping_sql_def setTyping_def)

section \<open>The claims\<close>

text \<open>
  The specification's errors are the responses of the handlers: \<^verbatim>\<open>UnknownLobby\<close> is status 400
  with \<^verbatim>\<open>Message did not belong to a lobby!\<close> (\<^verbatim>\<open>postMessage\<close>) or \<^verbatim>\<open>Lobby does not exist!\<close>
  (\<^verbatim>\<open>enterLobby\<close>), \<^verbatim>\<open>SenderNotFound\<close> is status 404 with \<^verbatim>\<open>Could not find sender to update!\<close>,
  \<^verbatim>\<open>GenerationExhausted\<close> is status 500 with \<^verbatim>\<open>Failed to generate unique id string!\<close>, and
  \<^verbatim>\<open>BodyTooLong\<close> is status 400 with \<^verbatim>\<open>Message is too long!\<close>.
\<close>

text \<open>
  \<^bold>\<open>C1\<close>. Claim: every operation terminates on every input; in particular the scan over the
  senders in the typing update completes after a bounded number of steps, also for a request
  that names a sender absent from the list.

  The scan of \<^verbatim>\<open>updateTyping\<close> does not complete on the list that holds \<^verbatim>\<open>bob\<close> alone when
  the request names \<^verbatim>\<open>ghost\<close>: the index stays 0, the sender at 0 is never the requested one,
  and the loop has no result.
\<close>

theorem updateTyping_loop_spins:
  "updateTyping_loop 0 [bob] ghost = None"
  by (rule updateTyping_loop_None) (simp_all add: bob_def ghost_def)

text \<open>
  \<^bold>\<open>C2\<close>. Claim: \<^verbatim>\<open>CreateLobby\<close> fails with \<^verbatim>\<open>GenerationExhausted\<close> if and only if no
  collision-free id is found within the budget of 10 retries; whenever some candidate
  generated within the budget does not collide, it succeeds and returns such an id.

  In the store whose only lobby is \<^verbatim>\<open>aaaaaa\<close>, with a random source that yields \<^verbatim>\<open>aaaaaa\<close> for
  the first candidate and for nine retries and \<^verbatim>\<open>bbbbbb\<close> for the tenth retry,
  \<^verbatim>\<open>createLobby\<close> answers 500 and creates nothing, although the tenth retry (the draws from
  60 on) produced \<^verbatim>\<open>bbbbbb\<close>, which is no lobby: the loop leaves with \<^verbatim>\<open>attempts = 0\<close>, and the
  test after the loop takes that for failure without looking the last candidate up.
\<close>

theorem createLobby_gives_up_on_fresh_candidate:
  "createLobby rng_a_then_b store_a
     = (JSON StatusInternalServerError (H ''Failed to generate unique id string!''), store_a)
   \<and> randSeq rng_a_then_b (6 * 10) 6 = ''bbbbbb''
   \<and> \<not> doesLobbyExist store_a ''bbbbbb''"
proof -
  have "\<forall>j<10. doesLobbyExist store_a (randSeq rng_a_then_b (6 * j) 6)"
    by (simp add: randSeq_a doesLobbyExist_def store_a_def)
  then have "fst (createLobby rng_a_then_b store_a)
      = JSON StatusInternalServerError (H ''Failed to generate unique id string!'')"
    by (simp only: createLobby_fails_iff)
  then have "createLobby rng_a_then_b store_a
      = (JSON StatusInternalServerError (H ''Failed to generate unique id string!''), store_a)"
    by (simp add: createLobby_def split: prod.splits if_splits)
  moreover have "\<not> doesLobbyExist store_a ''bbbbbb''"
    by (simp add: doesLobbyExist_def store_a_def)
  ultimately show ?thesis
    by (simp add: randSeq_b)
qed

text \<open>
  \<^bold>\<open>C3\<close>. Claim: \<^verbatim>\<open>SetTyping\<close> for a name and lobby that no sender has returns
  \<^verbatim>\<open>SenderNotFound\<close> and leaves the senders unchanged.

  In the store where \<^verbatim>\<open>bob\<close> has entered the lobby \<^verbatim>\<open>abcxyz\<close>, no sender is called \<^verbatim>\<open>ghost\<close>,
  and \<^verbatim>\<open>updateTyping\<close> for \<^verbatim>\<open>ghost\<close> gives no response at all: the handler does not return.
\<close>

theorem updateTyping_absent_sender_no_response:
  "filter (\<lambda>x. Username x = Username ghost \<and> sender.LobbyId x = sender.LobbyId ghost)
     (senders store_entered) = []
   \<and> updateTyping (Some ghost) store_entered = None"
  by (simp add: updateTyping_def store_entered_def updateTyping_loop_None bob_def ghost_def)

text \<open>
  \<^bold>\<open>C4\<close>. Claim: \<^verbatim>\<open>PostMessage\<close> with a body longer than 512 fails with \<^verbatim>\<open>BodyTooLong\<close>
  before any mutation; with a body of at most 512 on an existing lobby it does not fail
  with \<^verbatim>\<open>BodyTooLong\<close>.

  The in-memory \<^verbatim>\<open>postMessage\<close> has no test of the length: a body of 513 bytes posted to the
  existing lobby \<^verbatim>\<open>abcxyz\<close> is answered 201, the message is appended with id 1 and the counter
  goes to 2. (The MySQL variant has the test: \<open>postMessage_sql_too_long\<close>.)
\<close>

theorem postMessage_accepts_long_body:
  "length (MessageString (hi\<lparr>MessageString := replicate 513 CHR ''a''\<rparr>)) = 513
   \<and> postMessage (Some (hi\<lparr>MessageString := replicate 513 CHR ''a''\<rparr>)) 1700000000 store_entered
       = (JSON StatusCreated (LobbyJSON
            \<lparr>Messages = Some [\<lparr>message.Id = 1, LobbyId = ''abcxyz'', SenderName = ''bob'',
                               MessageString = replicate 513 CHR ''a'', Timestamp = 1700000000\<rparr>],
             Senders = Some [bob], lobbyData.Id = ''abcxyz''\<rparr>),
          store_entered\<lparr>nextMessageId := 2,
             messages := [\<lparr>message.Id = 1, LobbyId = ''abcxyz'', SenderName = ''bob'',
                           MessageString = replicate 513 CHR ''a'', Timestamp = 1700000000\<rparr>]\<rparr>)"
  by (simp add: postMessage_def doesLobbyExist_def constructLobbyData_def includeMessage_def
      includeSender_def store_entered_def hi_def bob_def Let_def)



text \<open>
  \<^bold>\<open>C6\<close>. Claim: calling \<^verbatim>\<open>EnterLobby\<close> twice with the same lobby and name, on a store where
  the lobby exists, results in exactly one sender record for that name and lobby, and the
  second call does not reset the typing flag if it was set between the calls.

  The store \<open>s0\<close> is any store reached from the start in which the lobby exists; \<open>rs\<close> are the
  requests served between the two calls (none, or a typing update, or anything else). After
  the second call there is exactly one sender with that name and lobby, and the second
  call has changed no sender record.
\<close>

theorem enterLobby_twice_one_sender:
  assumes "run rs0 init = Some s0"
    and "doesLobbyExist s0 lobby_id"
    and "run rs (snd (enterLobby (Some \<lparr>Username = name, LobbyId = lobby_id, IsTyping = t1\<rparr>) s0))
           = Some s1"
  shows "length (filter (\<lambda>x. Username x = name \<and> sender.LobbyId x = lobby_id)
           (senders (snd (enterLobby (Some \<lparr>Username = name, LobbyId = lobby_id, IsTyping = t2\<rparr>) s1))))
         = 1
       \<and> senders (snd (enterLobby (Some \<lparr>Username = name, LobbyId = lobby_id, IsTyping = t2\<rparr>) s1))
         = senders s1"
proof -
  let ?r1 = "\<lparr>Username = name, LobbyId = lobby_id, IsTyping = t1\<rparr>"
  let ?r2 = "\<lparr>Username = name, LobbyId = lobby_id, IsTyping = t2\<rparr>"
  let ?s0' = "snd (enterLobby (Some ?r1) s0)"
  have inv0: "senders_inv s0"
    using assms(1) senders_inv_init by (rule run_senders_inv)
  have inv1: "senders_inv s1"
    using assms(3) enterLobby_senders_inv [OF inv0] by (rule run_senders_inv)
  have "(name, lobby_id) \<in> set (map sender_key (senders ?s0'))"
    using assms(2) by (auto simp: enterLobby_senders sender_key_def image_iff)
  with run_keys [OF assms(3)] have mem: "(name, lobby_id) \<in> sender_key ` set (senders s1)"
    by auto
  then have same: "senders (snd (enterLobby (Some ?r2) s1)) = senders s1"
    by (simp add: enterLobby_senders sender_key_def)
  have "length (filter (\<lambda>x. sender_key x = (name, lobby_id)) (senders s1)) = 1"
    using inv1 mem unfolding senders_inv_def by (rule distinct_keys_count)
  then have "length (filter (\<lambda>x. Username x = name \<and> sender.LobbyId x = lobby_id) (senders s1)) = 1"
    by (simp add: sender_key_def)
  with same show ?thesis by simp
qed

theorem enterLobby_twice_one_sender_witness:
  "run [PostCreateLobby rng_abcxyz] init = Some store_created
   \<and> doesLobbyExist store_created ''abcxyz''
   \<and> run [PostUpdateTyping (Some (bob\<lparr>IsTyping := True\<rparr>))]
         (snd (enterLobby (Some \<lparr>Username = ''bob'', LobbyId = ''abcxyz'', IsTyping = False\<rparr>)
                 store_created))
       = Some (store_entered\<lparr>senders := [bob\<lparr>IsTyping := True\<rparr>]\<rparr>)
   \<and> length (filter (\<lambda>x. Username x = ''bob'' \<and> sender.LobbyId x = ''abcxyz'')
        (senders (snd (enterLobby (Some \<lparr>Username = ''bob'', LobbyId = ''abcxyz'', IsTyping = False\<rparr>)
                         (store_entered\<lparr>senders := [bob\<lparr>IsTyping := True\<rparr>]\<rparr>))))) = 1
   \<and> senders (snd (enterLobby (Some \<lparr>Username = ''bob'', LobbyId = ''abcxyz'', IsTyping = False\<rparr>)
                      (store_entered\<lparr>senders := [bob\<lparr>IsTyping := True\<rparr>]\<rparr>)))
       = [\<lparr>Username = ''bob'', LobbyId = ''abcxyz'', IsTyping = True\<rparr>]"
proof -
  have a: "run [PostCreateLobby rng_abcxyz] init = Some store_created"
    by (simp add: session_create)
  have b: "doesLobbyExist store_created ''abcxyz''"
    by (simp add: doesLobbyExist_def store_created_def)
  have e: "snd (enterLobby (Some \<lparr>Username = ''bob'', LobbyId = ''abcxyz'', IsTyping = False\<rparr>)
                  store_created) = store_entered"
    using session_enter by (simp add: bob_def)
  have c: "run [PostUpdateTyping (Some (bob\<lparr>IsTyping := True\<rparr>))]
         (snd (enterLobby (Some \<lparr>Username = ''bob'', LobbyId = ''abcxyz'', IsTyping = False\<rparr>)
                 store_created))
       = Some (store_entered\<lparr>senders := [bob\<lparr>IsTyping := True\<rparr>]\<rparr>)"
    unfolding e using session_typing [of store_entered] by (simp add: store_entered_def)
  show ?thesis
    using a b c enterLobby_twice_one_sender [OF a b c, of False]
    by (simp add: bob_def store_entered_def)
qed

text \<open>
  \<^bold>\<open>C7\<close>. Claim: the view returned by a successful \<^verbatim>\<open>PostMessage\<close> on an existing lobby
  contains the message just posted, with its assigned id, the server's timestamp, the given
  sender name and body.

  On an existing lobby \<^verbatim>\<open>postMessage\<close> answers 201 with a view of that lobby; the message
  with the id taken from the counter, the time \<open>now\<close> and the sender name and body of the
  request is appended to the store and is among the messages of the view.
\<close>

theorem posted_message_in_view:
  assumes "doesLobbyExist s (message.LobbyId msg)"
  shows "\<exists>view ms.
           postMessage (Some msg) now s
             = (JSON StatusCreated (LobbyJSON view),
                s\<lparr>nextMessageId := nextMessageId s + 1,
                  messages := messages s
                    @ [\<lparr>message.Id = nextMessageId s, LobbyId = message.LobbyId msg,
                        SenderName = SenderName msg, MessageString = MessageString msg,
                        Timestamp = now\<rparr>]\<rparr>)
         \<and> lobbyData.Id view = message.LobbyId msg
         \<and> Messages view = Some ms
         \<and> \<lparr>message.Id = nextMessageId s, LobbyId = message.LobbyId msg,
             SenderName = SenderName msg, MessageString = MessageString msg,
             Timestamp = now\<rparr> \<in> set ms"
proof -
  let ?posted = "msg\<lparr>message.Id := nextMessageId s, Timestamp := now\<rparr>"
  let ?s' = "s\<lparr>nextMessageId := nextMessageId s + 1, messages := messages s @ [?posted]\<rparr>"
  have p: "?posted = \<lparr>message.Id = nextMessageId s, LobbyId = message.LobbyId msg,
                        SenderName = SenderName msg, MessageString = MessageString msg,
                        Timestamp = now\<rparr>"
    by simp
  have e: "doesLobbyExist ?s' (message.LobbyId msg)"
    using assms by (simp add: doesLobbyExist_def)
  show ?thesis
    using assms unfolding postMessage_def Let_def p [symmetric]
    by (simp add: constructLobbyData_found [OF e])
qed

theorem posted_message_in_view_witness:
  "doesLobbyExist store_entered (message.LobbyId hi)
   \<and> (\<exists>view ms.
           postMessage (Some hi) 1700000000 store_entered
             = (JSON StatusCreated (LobbyJSON view),
                store_entered\<lparr>nextMessageId := nextMessageId store_entered + 1,
                  messages := messages store_entered
                    @ [\<lparr>message.Id = nextMessageId store_entered, LobbyId = message.LobbyId hi,
                        SenderName = SenderName hi, MessageString = MessageString hi,
                        Timestamp = 1700000000\<rparr>]\<rparr>)
         \<and> lobbyData.Id view = message.LobbyId hi
         \<and> Messages view = Some ms
         \<and> \<lparr>message.Id = nextMessageId store_entered, LobbyId = message.LobbyId hi,
             SenderName = SenderName hi, MessageString = MessageString hi,
             Timestamp = 1700000000\<rparr> \<in> set ms)"
proof -
  have a: "doesLobbyExist store_entered (message.LobbyId hi)"
    by (simp add: doesLobbyExist_def store_entered_def hi_def)
  show ?thesis using a posted_message_in_view [OF a, of 1700000000] by simp
qed

text \<open>
  \<^bold>\<open>C8\<close>. Claim: for a lobby id that is not in the lobby collection, \<^verbatim>\<open>PostMessage\<close> and
  \<^verbatim>\<open>EnterLobby\<close> return \<^verbatim>\<open>UnknownLobby\<close> and leave the store unchanged.

  Both handlers answer 400 with their message for an unknown lobby, and the store they
  return is the store they were given.
\<close>

theorem unknown_lobby_rejected:
  assumes "\<not> doesLobbyExist s lobby_id"
    and "message.LobbyId msg = lobby_id"
    and "sender.LobbyId enterReq = lobby_id"
  shows "postMessage (Some msg) now s
           = (JSON StatusBadRequest (H ''Message did not belong to a lobby!''), s)
       \<and> enterLobby (Some enterReq) s = (JSON StatusBadRequest (H ''Lobby does not exist!''), s)"
  using assms by (simp add: postMessage_def enterLobby_def)

theorem unknown_lobby_rejected_witness:
  "\<not> doesLobbyExist init ''abcxyz'' \<and> message.LobbyId hi = ''abcxyz'' \<and> sender.LobbyId bob = ''abcxyz''
   \<and> postMessage (Some hi) 1700000000 init
           = (JSON StatusBadRequest (H ''Message did not belong to a lobby!''), init)
   \<and> enterLobby (Some bob) init = (JSON StatusBadRequest (H ''Lobby does not exist!''), init)"
proof -
  have a: "\<not> doesLobbyExist init ''abcxyz''" by (simp add: doesLobbyExist_def init_def)
  have b: "message.LobbyId hi = ''abcxyz''" by (simp add: hi_def)
  have c: "sender.LobbyId bob = ''abcxyz''" by (simp add: bob_def)
  show ?thesis using a b c unknown_lobby_rejected [OF a b c, of 1700000000] by simp
qed

text \<open>
  \<^bold>\<open>C9\<close>. Claim: \<^verbatim>\<open>FetchLobbyView\<close> on an existing lobby without messages and senders
  succeeds and returns a view with the requested id whose messages and senders are empty
  lists, not null; in general the view holds exactly the stored messages and senders of
  the requested lobby.

  On an existing lobby \<^verbatim>\<open>fetchLobbyData\<close> answers 200 with a view that carries the requested
  id; its two slices are not nil and hold the stored messages and the stored senders of
  that lobby, in stored order; they are the empty slice when the lobby has none.
\<close>

theorem fetched_view_is_filter:
  assumes "doesLobbyExist s lobby_id"
  shows "\<exists>view ms xs.
           fetchLobbyData lobby_id s = JSON StatusOK (LobbyJSON view)
         \<and> lobbyData.Id view = lobby_id
         \<and> Messages view = Some ms \<and> ms = filter (\<lambda>m. message.LobbyId m = lobby_id) (messages s)
         \<and> Senders view = Some xs \<and> xs = filter (\<lambda>x. sender.LobbyId x = lobby_id) (senders s)
         \<and> ((\<forall>m\<in>set (messages s). message.LobbyId m \<noteq> lobby_id) \<longrightarrow> Messages view = Some [])
         \<and> ((\<forall>x\<in>set (senders s). sender.LobbyId x \<noteq> lobby_id) \<longrightarrow> Senders view = Some [])"
  using assms by (simp add: fetchLobbyData_def constructLobbyData_found filter_empty_conv)

theorem fetched_view_is_filter_witness:
  "doesLobbyExist store_two_lobbies ''qqqqqq''
   \<and> messages store_two_lobbies \<noteq> []
   \<and> filter (\<lambda>m. message.LobbyId m = ''qqqqqq'') (messages store_two_lobbies) = []
   \<and> filter (\<lambda>x. sender.LobbyId x = ''qqqqqq'') (senders store_two_lobbies) = []
   \<and> (\<exists>view.
           fetchLobbyData ''qqqqqq'' store_two_lobbies = JSON StatusOK (LobbyJSON view)
         \<and> lobbyData.Id view = ''qqqqqq''
         \<and> Messages view = Some [] \<and> Senders view = Some [])"
proof -
  have a: "doesLobbyExist store_two_lobbies ''qqqqqq''"
    by (simp add: doesLobbyExist_def store_two_lobbies_def)
  have b: "filter (\<lambda>m. message.LobbyId m = ''qqqqqq'') (messages store_two_lobbies) = []"
    by (simp add: store_two_lobbies_def hi_def)
  have c: "filter (\<lambda>x. sender.LobbyId x = ''qqqqqq'') (senders store_two_lobbies) = []"
    by (simp add: store_two_lobbies_def bob_def)
  have d: "messages store_two_lobbies \<noteq> []"
    by (simp add: store_two_lobbies_def)
  show ?thesis using a b c d fetched_view_is_filter [OF a] by auto
qed

text \<open>
  \<^bold>\<open>C10\<close>. Claim: a successful \<^verbatim>\<open>SetTyping\<close> changes only the typing flag of the sender with
  the requested name and lobby; lobbies, messages, the message counter, every other sender
  and the name and lobby of that sender are unchanged.

  When \<^verbatim>\<open>updateTyping\<close> answers 200, the lobbies, the messages and the counter are as before,
  and the senders are as before except at one position, where the sender has the requested
  name and lobby and now carries the requested flag.
\<close>

theorem updateTyping_frame:
  assumes "updateTyping (Some request) s = Some (JSON StatusOK EmptyJSON, s')"
  shows "lobbies s' = lobbies s \<and> messages s' = messages s \<and> nextMessageId s' = nextMessageId s
       \<and> (\<exists>i<length (senders s).
             Username (senders s ! i) = Username request
           \<and> sender.LobbyId (senders s ! i) = sender.LobbyId request
           \<and> senders s' = (senders s)[i := (senders s ! i)\<lparr>IsTyping := IsTyping request\<rparr>]
           \<and> Username (senders s' ! i) = Username (senders s ! i)
           \<and> sender.LobbyId (senders s' ! i) = sender.LobbyId (senders s ! i)
           \<and> IsTyping (senders s' ! i) = IsTyping request
           \<and> (\<forall>j<length (senders s). j \<noteq> i \<longrightarrow> senders s' ! j = senders s ! j))
       \<and> length (senders s') = length (senders s)"
proof (cases "0 < length (senders s)")
  case False
  then have "updateTyping_loop 0 (senders s) request = Some (senders s, False)"
    by (simp add: updateTyping_loop_end)
  with assms show ?thesis by (simp add: updateTyping_def)
next
  case True
  show ?thesis
  proof (cases "Username (senders s ! 0) = Username request
                \<and> sender.LobbyId (senders s ! 0) = sender.LobbyId request")
    case False
    with True have "updateTyping_loop 0 (senders s) request = None"
      by (intro updateTyping_loop_None) auto
    with assms show ?thesis by (simp add: updateTyping_def)
  next
    case hit: True
    with True have "updateTyping_loop 0 (senders s) request
        = Some ((senders s)[0 := (senders s ! 0)\<lparr>IsTyping := IsTyping request\<rparr>], True)"
      by (simp add: updateTyping_loop_hit)
    with assms have s':
      "s' = s\<lparr>senders := (senders s)[0 := (senders s ! 0)\<lparr>IsTyping := IsTyping request\<rparr>]\<rparr>"
      by (simp add: updateTyping_def)
    have "\<exists>i<length (senders s).
             Username (senders s ! i) = Username request
           \<and> sender.LobbyId (senders s ! i) = sender.LobbyId request
           \<and> senders s' = (senders s)[i := (senders s ! i)\<lparr>IsTyping := IsTyping request\<rparr>]
           \<and> Username (senders s' ! i) = Username (senders s ! i)
           \<and> sender.LobbyId (senders s' ! i) = sender.LobbyId (senders s ! i)
           \<and> IsTyping (senders s' ! i) = IsTyping request
           \<and> (\<forall>j<length (senders s). j \<noteq> i \<longrightarrow> senders s' ! j = senders s ! j)"
      using True hit s' by (intro exI [of _ 0]) simp
    then show ?thesis using s' by simp
  qed
qed

theorem updateTyping_frame_witness:
  "updateTyping (Some (bob\<lparr>IsTyping := True\<rparr>)) store_two_lobbies
     = Some (JSON StatusOK EmptyJSON, store_two_lobbies\<lparr>senders := [bob\<lparr>IsTyping := True\<rparr>]\<rparr>)
   \<and> messages (store_two_lobbies\<lparr>senders := [bob\<lparr>IsTyping := True\<rparr>]\<rparr>) = messages store_two_lobbies
   \<and> lobbies (store_two_lobbies\<lparr>senders := [bob\<lparr>IsTyping := True\<rparr>]\<rparr>) = lobbies store_two_lobbies
   \<and> (\<exists>i<length (senders store_two_lobbies).
         senders (store_two_lobbies\<lparr>senders := [bob\<lparr>IsTyping := True\<rparr>]\<rparr>)
           = (senders store_two_lobbies)[i := (senders store_two_lobbies ! i)\<lparr>IsTyping := True\<rparr>])"
proof -
  have a: "updateTyping (Some (bob\<lparr>IsTyping := True\<rparr>)) store_two_lobbies
     = Some (JSON StatusOK EmptyJSON, store_two_lobbies\<lparr>senders := [bob\<lparr>IsTyping := True\<rparr>]\<rparr>)"
    by (simp add: updateTyping_def store_two_lobbies_def updateTyping_loop_hit)
  show ?thesis using a updateTyping_frame [OF a] by auto
qed

end
